theory Spec2Isabelle
  imports Main
begin

section \<open>Data model\<close>

text \<open>
  The embedding follows \<^verbatim>\<open>viser_proxy_manager.py\<close>. Python's unbounded integers are
  \<^typ>\<open>int\<close>; the operator \<^verbatim>\<open>%\<close> with a non-zero right operand is \<^term>\<open>(mod)\<close> on
  \<^typ>\<open>int\<close> (the result has the sign of the divisor in both), and with a zero right operand
  it raises \<^verbatim>\<open>ZeroDivisionError\<close>. Strings and byte strings are \<^typ>\<open>string\<close>, dictionaries
  are maps. A method of the class takes the manager and the state of the loopback interface
  and returns its result, or the exception it raises, together with both as they are when
  the method returns or raises.
\<close>

text \<open>
  The exceptions of the manager's methods. \<open>BackendError\<close> stands for whatever exception
  other than \<^verbatim>\<open>OSError\<close> the backend's constructor raises.
\<close>

datatype error =
    KeyError
  | RuntimeError
  | ZeroDivisionError
  | OverflowError
  | OSError
  | BackendError

text \<open>
  A \<^verbatim>\<open>viser.ViserServer\<close>, as far as the manager uses it: the handle answers
  \<^verbatim>\<open>get_port()\<close> with the port the backend serves on.
\<close>

record viser_server =
  get_port :: int

text \<open>The attributes \<^verbatim>\<open>__init__\<close> gives a \<^verbatim>\<open>ViserProxyManager\<close>.\<close>

record manager =
  min_port :: int
  max_port :: int
  server_from_session_hash :: "string \<rightharpoonup> viser_server"
  last_port :: int

text \<open>
  The loopback interface \<^verbatim>\<open>127.0.0.1\<close>: the ports held by other processes; the backends
  that were launched and not stopped, oldest first; and the ports held by a probing socket
  of \<^verbatim>\<open>start_server\<close>. A backend that the manager no longer refers to keeps running with its
  port (section 9 of the specification), so a launched backend leaves \<open>live\<close> only through
  \<^verbatim>\<open>stop()\<close>.
\<close>

record netstate =
  foreign :: "int set"
  live :: "viser_server list"
  probe :: "int set"

type_synonym state = "manager \<times> netstate"

text \<open>The system lets a socket bind a port that nothing holds.\<close>

definition bind_ok :: "netstate \<Rightarrow> int \<Rightarrow> bool" where
  "bind_ok os port \<longleftrightarrow>
     port \<notin> foreign os \<and> port \<notin> get_port ` set (live os) \<and> port \<notin> probe os"

text \<open>
  \<^verbatim>\<open>s.bind(("127.0.0.1", port))\<close> on the fresh socket of the \<^verbatim>\<open>with\<close> block. A port outside
  \<^verbatim>\<open>0..65535\<close> raises \<^verbatim>\<open>OverflowError\<close>. Port 0 asks the system for a port of its choosing:
  the bind succeeds, and the port the socket then holds is not recorded here. Any other port
  is bound, and held by the socket from then on, when nothing holds it, and the bind raises
  \<^verbatim>\<open>OSError\<close> otherwise.
\<close>

definition probe_ok :: "netstate \<Rightarrow> int \<Rightarrow> bool" where
  "probe_ok os port \<longleftrightarrow> 0 \<le> port \<and> port \<le> 65535 \<and> (port = 0 \<or> bind_ok os port)"

definition socket_bind :: "int \<Rightarrow> netstate \<Rightarrow> error + netstate" where
  "socket_bind port os =
     (if port < 0 \<or> 65535 < port then Inl OverflowError
      else if port = 0 then Inr os
      else if bind_ok os port then Inr (os\<lparr>probe := insert port (probe os)\<rparr>)
      else Inl OSError)"

text \<open>Leaving the \<^verbatim>\<open>with\<close> block closes the socket, which releases the port it holds.\<close>

definition socket_close :: "int \<Rightarrow> netstate \<Rightarrow> netstate" where
  "socket_close port os = (if port = 0 then os else os\<lparr>probe := probe os - {port}\<rparr>)"

text \<open>
  The library \<^verbatim>\<open>viser\<close> is outside this repository, and what its constructor does when it
  cannot bind the port it is given is not in the specification. It is a parameter: the ports
  the constructor goes on to try, in order, and whether the exception it raises when it can
  bind none of them is an \<^verbatim>\<open>OSError\<close>.
\<close>

record viser =
  fallback_ports :: "int \<Rightarrow> int list"
  raises_OSError :: bool

text \<open>
  Modelled from the spec: the constructor of the backend \<^verbatim>\<open>viser.ViserServer\<close>. Section 6
  of the specification gives its contract: given a port, it serves on \<^verbatim>\<open>127.0.0.1:<port>\<close>
  and returns a handle. The system lets it serve only on a port that nothing holds; when the
  given port is held, the library's parameters say where it serves instead, or how it raises.
\<close>

definition ViserServer :: "viser \<Rightarrow> int \<Rightarrow> netstate \<Rightarrow> error + viser_server \<times> netstate" where
  "ViserServer lib port os =
     (case find (bind_ok os) (port # fallback_ports lib port) of
        None \<Rightarrow> Inl (if raises_OSError lib then OSError else BackendError)
      | Some p \<Rightarrow> Inr (\<lparr>get_port = p\<rparr>, os\<lparr>live := live os @ [\<lparr>get_port = p\<rparr>]\<rparr>))"

text \<open>
  Modelled from the spec: \<^verbatim>\<open>ViserServer.stop\<close>, of the same library. The backend is
  stoppable through the handle returned at launch (section 6), and stopping it releases its
  port (section 5).
\<close>

definition stop :: "viser_server \<Rightarrow> netstate \<Rightarrow> netstate" where
  "stop server os = os\<lparr>live := remove1 server (live os)\<rparr>"

section \<open>The session registry and its port search\<close>

text \<open>\<^verbatim>\<open>ViserProxyManager.__init__\<close>: the route handlers it registers are defined below.\<close>

definition ViserProxyManager :: "int \<Rightarrow> int \<Rightarrow> manager" where
  "ViserProxyManager min_local_port max_local_port =
     \<lparr>min_port = min_local_port,
      max_port = max_local_port,
      server_from_session_hash = Map.empty,
      last_port = min_local_port - 1\<rparr>"

definition port_range_size :: "manager \<Rightarrow> int" where
  "port_range_size m = max_port m - min_port m + 1"

text \<open>
  \<^verbatim>\<open>start_port\<close> is evaluated only when the range size is not zero; \<open>start_server\<close> below
  raises before it otherwise.
\<close>

definition start_port :: "manager \<Rightarrow> int" where
  "start_port m = ((last_port m + 1 - min_port m) mod port_range_size m) + min_port m"

definition port_at :: "manager \<Rightarrow> int \<Rightarrow> int" where
  "port_at m offset =
     ((start_port m - min_port m + offset) mod port_range_size m) + min_port m"

text \<open>
  The \<^verbatim>\<open>with\<close> block of the loop body, for one port: the probing socket binds the port,
  the backend is constructed while the socket holds it, and the socket is closed on the way
  out, whether the block returns or an exception leaves it. The result is the backend, or the
  exception that leaves the block, with the interface as it is then.
\<close>

definition try_port :: "viser \<Rightarrow> int \<Rightarrow> netstate \<Rightarrow> (error + viser_server) \<times> netstate" where
  "try_port lib port os =
     (case socket_bind port os of
        Inl e \<Rightarrow> (Inl e, os)
      | Inr bound \<Rightarrow>
          (case ViserServer lib port bound of
             Inl e \<Rightarrow> (Inl e, socket_close port bound)
           | Inr (server, os') \<Rightarrow> (Inr server, socket_close port os')))"

text \<open>
  \<^verbatim>\<open>for offset in range(port_range_size)\<close>, over the offsets still to visit. An \<^verbatim>\<open>OSError\<close>
  from the block, of the bind or of the constructor, is the \<^verbatim>\<open>except OSError: continue\<close>
  branch; any other exception leaves the method; a backend is registered under the id, the
  port that was probed is stored as the last port, and the backend is returned. Leaving the
  loop without a return reaches the final \<^verbatim>\<open>raise RuntimeError\<close>.
\<close>

fun try_ports ::
  "viser \<Rightarrow> string \<Rightarrow> int list \<Rightarrow> state \<Rightarrow> (error + viser_server) \<times> state" where
  "try_ports lib server_id [] (m, os) = (Inl RuntimeError, m, os)"
| "try_ports lib server_id (offset # offsets) (m, os) =
     (let port = port_at m offset in
      case try_port lib port os of
        (Inl e, os') \<Rightarrow>
          if e = OSError then try_ports lib server_id offsets (m, os') else (Inl e, m, os')
      | (Inr server, os') \<Rightarrow>
          (Inr server,
           m\<lparr>server_from_session_hash := (server_from_session_hash m)(server_id \<mapsto> server),
             last_port := port\<rparr>,
           os'))"

definition start_server ::
  "viser \<Rightarrow> string \<Rightarrow> state \<Rightarrow> (error + viser_server) \<times> state" where
  "start_server lib server_id st =
     (case st of
        (m, os) \<Rightarrow>
          if port_range_size m = 0 then (Inl ZeroDivisionError, m, os)
          else try_ports lib server_id [0..port_range_size m - 1] (m, os))"

definition get_server :: "string \<Rightarrow> state \<Rightarrow> (error + viser_server) \<times> state" where
  "get_server server_id st =
     (case st of
        (m, os) \<Rightarrow>
          (case server_from_session_hash m server_id of
             None \<Rightarrow> (Inl KeyError, m, os)
           | Some server \<Rightarrow> (Inr server, m, os)))"

text \<open>
  \<^verbatim>\<open>self._server_from_session_hash.pop(server_id).stop()\<close>: \<^verbatim>\<open>pop\<close> without a default
  raises \<^verbatim>\<open>KeyError\<close> on a missing key, before anything is changed.
\<close>

definition stop_server :: "string \<Rightarrow> state \<Rightarrow> (error + unit) \<times> state" where
  "stop_server server_id st =
     (case st of
        (m, os) \<Rightarrow>
          (case server_from_session_hash m server_id of
             None \<Rightarrow> (Inl KeyError, m, os)
           | Some server \<Rightarrow>
               (Inr (),
                m\<lparr>server_from_session_hash := (server_from_session_hash m)(server_id := None)\<rparr>,
                stop server os)))"

text \<open>
  The calls the surrounding application makes on one manager (\<^verbatim>\<open>app.py\<close>: on page load,
  on a button click, on unload). An exception ends the call and leaves the manager as it
  is at that moment; the next call finds it so.
\<close>

datatype call = Start string | Get string | Stop string

fun exec :: "viser \<Rightarrow> call \<Rightarrow> state \<Rightarrow> state" where
  "exec lib (Start server_id) st = snd (start_server lib server_id st)"
| "exec lib (Get server_id) st = snd (get_server server_id st)"
| "exec lib (Stop server_id) st = snd (stop_server server_id st)"

fun run :: "viser \<Rightarrow> call list \<Rightarrow> state \<Rightarrow> state" where
  "run lib [] st = st"
| "run lib (c # cs) st = run lib cs (exec lib c st)"

section \<open>The HTTP proxy\<close>

text \<open>
  What the handler reads from the inbound \<^verbatim>\<open>Request\<close>: \<^verbatim>\<open>request.method\<close>,
  \<^verbatim>\<open>request.url.query\<close>, \<^verbatim>\<open>request.headers\<close> and \<^verbatim>\<open>await request.body()\<close>. The headers
  are the header lines of the request in their order, a name with its value; the server in
  front of the framework delivers the names in lower case, so the \<^verbatim>\<open>Host\<close> header has the
  name \<^verbatim>\<open>host\<close>. A name can stand on several lines.
\<close>

record request =
  request_method :: string
  request_query :: string
  request_headers :: "(string \<times> string) list"
  request_body :: string

text \<open>The keyword arguments of \<^verbatim>\<open>client.build_request\<close>.\<close>

record proxied_request =
  proxied_method :: string
  proxied_url :: string
  proxied_headers :: "string \<rightharpoonup> string"
  proxied_content :: string

text \<open>
  The backend's answer as it sends it: the status code, the header lines in their order, a
  name (in the backend's spelling) with its value, and the bytes of the body.
\<close>

record proxied_response =
  backend_status_code :: int
  backend_headers :: "(string \<times> string) list"
  backend_body :: string

text \<open>The keyword arguments of the \<^verbatim>\<open>Response\<close> the handler returns.\<close>

record response =
  content :: string
  status_code :: int
  headers :: "string \<rightharpoonup> string"

text \<open>Python's \<^verbatim>\<open>str\<close> of an integer, as the f-strings format the port.\<close>

function str_nat :: "nat \<Rightarrow> string" where
  "str_nat n =
     (if n < 10 then [''0123456789'' ! n]
      else str_nat (n div 10) @ [''0123456789'' ! (n mod 10)])"
  by pat_completeness auto
termination
  by (relation "measure (\<lambda>n. n)") auto

declare str_nat.simps [simp del]

definition str_int :: "int \<Rightarrow> string" where
  "str_int i = (if i < 0 then ''-'' @ str_nat (nat (- i)) else str_nat (nat i))"

definition path_suffix :: "string \<Rightarrow> string" where
  "path_suffix proxy_path = (if proxy_path \<noteq> [] then ''/'' @ proxy_path else ''/'')"

definition target_url :: "viser_server \<Rightarrow> request \<Rightarrow> string \<Rightarrow> string" where
  "target_url server request proxy_path =
     (let url = ''http://127.0.0.1:'' @ str_int (get_port server) @ path_suffix proxy_path
      in if request_query request \<noteq> [] then url @ ''?'' @ request_query request else url)"

text \<open>
  \<^verbatim>\<open>dict(request.headers)\<close>: \<^verbatim>\<open>dict\<close> takes the keys of the mapping and indexes the mapping
  with each of them, and the framework's \<^verbatim>\<open>Headers\<close> answers a name with the value of the
  first line of that name.
\<close>

definition dict_of_request_headers :: "(string \<times> string) list \<Rightarrow> string \<rightharpoonup> string" where
  "dict_of_request_headers lines = map_of lines"

text \<open>
  \<^verbatim>\<open>headers = dict(request.headers)\<close>, \<^verbatim>\<open>headers.pop("host", None)\<close>,
  \<^verbatim>\<open>headers["accept-encoding"] = "identity"\<close>.
\<close>

definition forwarded_headers :: "request \<Rightarrow> string \<rightharpoonup> string" where
  "forwarded_headers request =
     ((dict_of_request_headers (request_headers request))(''host'' := None))
       (''accept-encoding'' \<mapsto> ''identity'')"

text \<open>Python's \<^verbatim>\<open>str.lower\<close> on the ASCII letters, and \<^verbatim>\<open>sep.join\<close>.\<close>

definition lower_char :: "char \<Rightarrow> char" where
  "lower_char c =
     (case map_of (zip ''ABCDEFGHIJKLMNOPQRSTUVWXYZ'' ''abcdefghijklmnopqrstuvwxyz'') c of
        None \<Rightarrow> c
      | Some l \<Rightarrow> l)"

definition lower :: "string \<Rightarrow> string" where
  "lower s = map lower_char s"

fun join :: "string \<Rightarrow> string list \<Rightarrow> string" where
  "join sep [] = []"
| "join sep [x] = x"
| "join sep (x # y # ys) = x @ sep @ join sep (y # ys)"

text \<open>
  \<^verbatim>\<open>dict(proxied_resp.headers)\<close>: the keys of the client library's \<^verbatim>\<open>Headers\<close> are the names
  in lower case, and it answers a name with the values of all lines of that name, joined by
  a comma and a space.
\<close>

definition header_values :: "string \<Rightarrow> (string \<times> string) list \<Rightarrow> string list" where
  "header_values name lines = map snd (filter (\<lambda>line. lower (fst line) = name) lines)"

definition dict_of_response_headers :: "(string \<times> string) list \<Rightarrow> string \<rightharpoonup> string" where
  "dict_of_response_headers lines =
     (\<lambda>name. if header_values name lines = [] then None
             else Some (join '', '' (header_values name lines)))"

text \<open>
  \<^verbatim>\<open>await proxied_resp.aread()\<close>: the bytes of the body, passed through the client library's
  decoder for the answer's \<^verbatim>\<open>content-encoding\<close> when it has one. The decoders are a
  parameter, from the coding and the bytes to the decoded bytes.
\<close>

definition aread :: "(string \<Rightarrow> string \<Rightarrow> string) \<Rightarrow> proxied_response \<Rightarrow> string" where
  "aread decode proxied_resp =
     (case dict_of_response_headers (backend_headers proxied_resp) ''content-encoding'' of
        None \<Rightarrow> backend_body proxied_resp
      | Some coding \<Rightarrow> decode coding (backend_body proxied_resp))"

text \<open>
  The route handler \<^verbatim>\<open>proxy\<close>. The parameter \<open>send\<close> is the backend: it answers a request
  or \<^verbatim>\<open>client.send\<close> raises. The handler returns the requests it sent with the response it
  gives the client, or the exception that leaves it.
\<close>

definition proxy ::
  "(string \<Rightarrow> string \<Rightarrow> string) \<Rightarrow> (proxied_request \<Rightarrow> 'e + proxied_response) \<Rightarrow> manager
     \<Rightarrow> request \<Rightarrow> string \<Rightarrow> string \<Rightarrow> proxied_request list \<times> ('e + response)" where
  "proxy decode send m request server_id proxy_path =
     (case server_from_session_hash m server_id of
        None \<Rightarrow>
          ([], Inr \<lparr>content = ''Server not found'', status_code = 404, headers = Map.empty\<rparr>)
      | Some server \<Rightarrow>
          (let proxied_req =
                 \<lparr>proxied_method = request_method request,
                  proxied_url = target_url server request proxy_path,
                  proxied_headers = forwarded_headers request,
                  proxied_content = request_body request\<rparr>
           in case send proxied_req of
                Inl e \<Rightarrow> ([proxied_req], Inl e)
              | Inr proxied_resp \<Rightarrow>
                  ([proxied_req],
                   Inr \<lparr>content = aread decode proxied_resp,
                        status_code = backend_status_code proxied_resp,
                        headers = dict_of_response_headers (backend_headers proxied_resp)\<rparr>)))"

section \<open>The WebSocket proxy, up to the relay\<close>

text \<open>
  What the handler \<^verbatim>\<open>websocket_proxy\<close> does on the two sockets, in order. The relaying
  itself, two tasks that run concurrently until the first of them completes, is the single
  event \<open>Relay\<close>; the backend connection is closed on leaving the \<^verbatim>\<open>async with\<close> block.
\<close>

datatype ws_event =
    Accept
  | Close int string
  | Connect string
  | Relay
  | Close_target
  | Print string

text \<open>
  How the \<^verbatim>\<open>try\<close> block goes: \<^verbatim>\<open>websockets.connect\<close> raises, or the block is entered and
  left normally, or an exception leaves the block after the connection was made.
\<close>

datatype dial = Refused string | Relayed | Relay_failed string

definition websocket_proxy :: "(string \<Rightarrow> dial) \<Rightarrow> manager \<Rightarrow> string \<Rightarrow> ws_event list" where
  "websocket_proxy connect m server_id =
     Accept #
     (case server_from_session_hash m server_id of
        None \<Rightarrow> [Close 1008 ''Not Found'']
      | Some server \<Rightarrow>
          (let target_ws_url = ''ws://127.0.0.1:'' @ str_int (get_port server) in
           if target_ws_url = [] then [Close 1008 ''Not Found'']
           else
             (case connect target_ws_url of
                Refused e \<Rightarrow>
                  [Connect target_ws_url, Print (''WebSocket proxy error: '' @ e), Close 1011 e]
              | Relayed \<Rightarrow> [Connect target_ws_url, Relay, Close_target]
              | Relay_failed e \<Rightarrow>
                  [Connect target_ws_url, Relay, Close_target,
                   Print (''WebSocket proxy error: '' @ e), Close 1011 e])))"

section \<open>The round-robin order, an example library and two invariants\<close>

text \<open>
  The order of the specification's allocator: from the port after the last one handed out up
  to the top of the range, then from the bottom of the range up to the last one handed out.
\<close>

definition round_robin_order :: "int \<Rightarrow> int \<Rightarrow> int \<Rightarrow> int list" where
  "round_robin_order lo hi prev = [prev + 1..hi] @ [lo..prev]"

text \<open>
  An instance of the library's parameters, for the examples: a constructor that goes on to
  the four ports above the one it was given, and raises something other than \<^verbatim>\<open>OSError\<close>
  when it can bind none of them.
\<close>

definition next_ports :: viser where
  "next_ports =
     \<lparr>fallback_ports = (\<lambda>port. [port + 1, port + 2, port + 3, port + 4]),
      raises_OSError = False\<rparr>"

text \<open>
  Another instance: a constructor that tries only the port it was given, and raises
  \<^verbatim>\<open>OSError\<close> when it cannot bind it.
\<close>

definition only_given :: viser where
  "only_given = \<lparr>fallback_ports = (\<lambda>port. []), raises_OSError = True\<rparr>"

text \<open>
  Instances of the backend and of the decoders, for the examples: a backend that answers
  every request with the same response, one that cannot be reached, and decoders that decode
  one \<^verbatim>\<open>gzip\<close> body and leave everything else as it is.
\<close>

definition answering :: "proxied_response \<Rightarrow> proxied_request \<Rightarrow> unit + proxied_response" where
  "answering proxied_resp proxied_req = Inr proxied_resp"

definition unreachable :: "proxied_request \<Rightarrow> unit + proxied_response" where
  "unreachable proxied_req = Inl ()"

definition example_decode :: "string \<Rightarrow> string \<Rightarrow> string" where
  "example_decode coding body =
     (if coding = ''gzip'' \<and> body = ''(hello, compressed)'' then ''hello'' else body)"

text \<open>What holds of the manager's range and of its last port after any calls.\<close>

definition bounds_ok :: "int \<Rightarrow> int \<Rightarrow> state \<Rightarrow> bool" where
  "bounds_ok lo hi st \<longleftrightarrow>
     min_port (fst st) = lo \<and> max_port (fst st) = hi \<and>
     lo - 1 \<le> last_port (fst st) \<and> last_port (fst st) \<le> hi"

text \<open>
  What holds of the leases after any calls: no probing socket is left open; the running
  backends sit on different ports, none of them on a port another process holds; every
  registered backend is running; and different session ids are registered with different
  backends.
\<close>

definition leases_ok :: "state \<Rightarrow> bool" where
  "leases_ok st \<longleftrightarrow>
     probe (snd st) = {} \<and>
     distinct (map get_port (live (snd st))) \<and>
     get_port ` set (live (snd st)) \<inter> foreign (snd st) = {} \<and>
     (\<forall>server_id server. server_from_session_hash (fst st) server_id = Some server
        \<longrightarrow> server \<in> set (live (snd st))) \<and>
     (\<forall>id1 id2 server. id1 \<noteq> id2
        \<longrightarrow> server_from_session_hash (fst st) id1 = Some server
        \<longrightarrow> server_from_session_hash (fst st) id2 \<noteq> Some server)"

section \<open>The order of the port search\<close>

lemmas eval_defs =
  start_server_def stop_server_def stop_def get_server_def ViserProxyManager_def
  port_range_size_def upto.simps port_at_def start_port_def try_port_def socket_bind_def
  socket_close_def bind_ok_def probe_ok_def ViserServer_def next_ports_def only_given_def

lemma mod_wrap: "(0::int) \<le> a \<Longrightarrow> a < 2 * n \<Longrightarrow> a mod n = (if a < n then a else a - n)"
proof (cases "a < n")
  case True
  assume "0 \<le> a"
  with True show ?thesis by simp
next
  case False
  assume "0 \<le> a" "a < 2 * n"
  with False have "0 \<le> a - n" "a - n < n" by simp_all
  then have "(a - n) mod n = a - n" by (rule mod_pos_pos_trivial)
  then show ?thesis using False by simp
qed

lemma offsets_rotate:
  assumes "lo \<le> s" "s \<le> hi"
  shows "map (\<lambda>k. ((s - lo + k) mod (hi - lo + 1)) + lo) [0..hi - lo] = [s..hi] @ [lo..s - 1]"
proof (rule nth_equalityI)
  show "length (map (\<lambda>k. ((s - lo + k) mod (hi - lo + 1)) + lo) [0..hi - lo]) = length ([s..hi] @ [lo..s - 1])"
    using assms by simp
next
  fix i assume "i < length (map (\<lambda>k. ((s - lo + k) mod (hi - lo + 1)) + lo) [0..hi - lo])"
  then have i: "int i \<le> hi - lo" using assms by simp
  have m: "(s - lo + int i) mod (hi - lo + 1) = (if s - lo + int i < hi - lo + 1 then s - lo + int i else s - lo + int i - (hi - lo + 1))"
    using assms i by (intro mod_wrap) auto
  show "map (\<lambda>k. ((s - lo + k) mod (hi - lo + 1)) + lo) [0..hi - lo] ! i = ([s..hi] @ [lo..s - 1]) ! i"
  proof (cases "s + int i \<le> hi")
    case True
    then have "i < nat (hi - s + 1)" by linarith
    then show ?thesis using assms i m True by (simp add: nth_append)
  next
    case False
    then have "\<not> i < nat (hi - s + 1)" by linarith
    moreover have "lo + int (i - nat (hi - s + 1)) \<le> s - 1" using False i assms by linarith
    ultimately show ?thesis using assms i m False by (simp add: nth_append) 
  qed
qed

lemma start_port_reachable:
  assumes "min_port m \<le> max_port m" "min_port m - 1 \<le> last_port m" "last_port m \<le> max_port m"
  shows "start_port m = (if last_port m = max_port m then min_port m else last_port m + 1)"
  using assms mod_wrap [of "last_port m + 1 - min_port m" "max_port m - min_port m + 1"]
  by (auto simp: start_port_def port_range_size_def)

lemma scan_order:
  assumes "min_port m \<le> max_port m" "min_port m - 1 \<le> last_port m" "last_port m \<le> max_port m"
  shows "map (port_at m) [0..port_range_size m - 1] =
         round_robin_order (min_port m) (max_port m) (last_port m)"
proof -
  have s: "min_port m \<le> start_port m" "start_port m \<le> max_port m"
    using assms by (auto simp: start_port_reachable)
  have "map (port_at m) [0..port_range_size m - 1] = [start_port m..max_port m] @ [min_port m..start_port m - 1]"
    using offsets_rotate [OF s] by (simp add: port_at_def [abs_def] port_range_size_def)
  also have "\<dots> = round_robin_order (min_port m) (max_port m) (last_port m)"
    using assms by (auto simp: start_port_reachable round_robin_order_def)
  finally show ?thesis .
qed

lemma round_robin_order_perm:
  assumes "lo - 1 \<le> prev" "prev \<le> hi"
  shows "distinct (round_robin_order lo hi prev)" "set (round_robin_order lo hi prev) = {lo..hi}"
  using assms by (auto simp: round_robin_order_def)

lemma port_at_range:
  assumes "0 < port_range_size m"
  shows "min_port m \<le> port_at m k" "port_at m k \<le> max_port m"
proof -
  have "0 \<le> (start_port m - min_port m + k) mod port_range_size m"
       "(start_port m - min_port m + k) mod port_range_size m < port_range_size m"
    using assms by simp_all
  then show "min_port m \<le> port_at m k" "port_at m k \<le> max_port m"
    by (simp_all add: port_at_def port_range_size_def)
qed

lemma socket_close_bound:
  "socket_bind port os = Inr bound \<Longrightarrow> socket_close port bound = os"
  by (auto simp: socket_bind_def socket_close_def bind_ok_def split: if_splits)

lemma socket_bind_ok: "socket_bind port os = Inr bound \<Longrightarrow> probe_ok os port"
  by (auto simp: socket_bind_def probe_ok_def split: if_splits)

lemma socket_bind_live:
  "socket_bind port os = Inr bound \<Longrightarrow> live bound = live os \<and> foreign bound = foreign os"
  by (auto simp: socket_bind_def split: if_splits)

lemma socket_close_live:
  "socket_close port (os\<lparr>live := xs\<rparr>) = (socket_close port os)\<lparr>live := xs\<rparr>"
  by (simp add: socket_close_def)

lemma ViserServer_returns:
  assumes "ViserServer lib port os = Inr (server, os')"
  shows "bind_ok os (get_port server)" and "os' = os\<lparr>live := live os @ [server]\<rparr>"
proof -
  from assms obtain p where p: "find (bind_ok os) (port # fallback_ports lib port) = Some p"
      "server = \<lparr>get_port = p\<rparr>" "os' = os\<lparr>live := live os @ [\<lparr>get_port = p\<rparr>]\<rparr>"
    by (auto simp: ViserServer_def split: option.splits)
  from p(1) have "bind_ok os p" unfolding find_Some_iff by blast
  with p show "bind_ok os (get_port server)" and "os' = os\<lparr>live := live os @ [server]\<rparr>"
    by simp_all
qed

lemma try_port_raises:
  assumes "fst (try_port lib port os) = Inl e"
  shows "snd (try_port lib port os) = os"
  using assms
  by (auto simp: try_port_def socket_close_bound split: sum.splits prod.splits)

lemma try_port_returns:
  assumes "try_port lib port os = (Inr server, os')"
  shows "probe_ok os port" and "os' = os\<lparr>live := live os @ [server]\<rparr>"
    and "get_port server \<notin> foreign os" and "get_port server \<notin> get_port ` set (live os)"
proof -
  from assms obtain bound os1 where b: "socket_bind port os = Inr bound"
      "ViserServer lib port bound = Inr (server, os1)" "os' = socket_close port os1"
    by (auto simp: try_port_def split: sum.splits prod.splits)
  note v = ViserServer_returns [OF b(2)]
  show "probe_ok os port" using b(1) by (rule socket_bind_ok)
  show "os' = os\<lparr>live := live os @ [server]\<rparr>"
    using b(3) v(2) socket_close_bound [OF b(1)] socket_bind_live [OF b(1)]
    by (simp add: socket_close_live)
  show "get_port server \<notin> foreign os" "get_port server \<notin> get_port ` set (live os)"
    using v(1) socket_bind_live [OF b(1)] by (simp_all add: bind_ok_def)
qed

lemma try_ports_find:
  "try_ports lib server_id offsets (m, os) =
     (case find (\<lambda>port. fst (try_port lib port os) \<noteq> Inl OSError) (map (port_at m) offsets) of
        None \<Rightarrow> (Inl RuntimeError, m, os)
      | Some port \<Rightarrow>
          (case try_port lib port os of
             (Inl e, os') \<Rightarrow> (Inl e, m, os)
           | (Inr server, os') \<Rightarrow>
               (Inr server,
                m\<lparr>server_from_session_hash := (server_from_session_hash m)(server_id \<mapsto> server),
                  last_port := port\<rparr>,
                os')))"
proof (induction offsets)
  case Nil
  then show ?case by simp
next
  case (Cons offset offsets)
  show ?case
  proof (cases "try_port lib (port_at m offset) os")
    case (Pair r os')
    show ?thesis
    proof (cases r)
      case (Inl e)
      then have "os' = os" using try_port_raises [of lib "port_at m offset" os e] Pair by simp
      then show ?thesis using Cons Pair Inl by simp
    next
      case (Inr server)
      then show ?thesis using Pair by simp
    qed
  qed
qed

lemma start_server_find:
  "start_server lib server_id (m, os) =
     (if port_range_size m = 0 then (Inl ZeroDivisionError, m, os)
      else case find (\<lambda>port. fst (try_port lib port os) \<noteq> Inl OSError)
                  (map (port_at m) [0..port_range_size m - 1]) of
        None \<Rightarrow> (Inl RuntimeError, m, os)
      | Some port \<Rightarrow>
          (case try_port lib port os of
             (Inl e, os') \<Rightarrow> (Inl e, m, os)
           | (Inr server, os') \<Rightarrow>
               (Inr server,
                m\<lparr>server_from_session_hash := (server_from_session_hash m)(server_id \<mapsto> server),
                  last_port := port\<rparr>,
                os')))"
  by (simp add: start_server_def try_ports_find)

lemma find_port_at_range:
  assumes "find P (map (port_at m) [0..port_range_size m - 1]) = Some port"
  shows "P port" "min_port m \<le> port" "port \<le> max_port m"
proof -
  from assms obtain i where i: "i < length (map (port_at m) [0..port_range_size m - 1])"
      "P (map (port_at m) [0..port_range_size m - 1] ! i)"
      "port = map (port_at m) [0..port_range_size m - 1] ! i"
    by (auto simp: find_Some_iff)
  then have "0 < port_range_size m" by auto
  moreover from i obtain k where "port = port_at m k" by auto
  ultimately show "min_port m \<le> port" "port \<le> max_port m"
    by (simp_all add: port_at_range)
  show "P port" using i by simp
qed

lemma bounds_ok_init: "lo \<le> hi \<Longrightarrow> bounds_ok lo hi (ViserProxyManager lo hi, os)"
  by (simp add: bounds_ok_def ViserProxyManager_def)

lemma start_server_bounds:
  assumes "bounds_ok lo hi st"
  shows "bounds_ok lo hi (snd (start_server lib server_id st))"
proof (cases st)
  case (Pair m os)
  show ?thesis
  proof (cases "find (\<lambda>port. fst (try_port lib port os) \<noteq> Inl OSError)
                  (map (port_at m) [0..port_range_size m - 1])")
    case None
    then show ?thesis using assms Pair by (simp add: start_server_find)
  next
    case (Some port)
    from find_port_at_range(2,3) [OF Some] show ?thesis
      using assms Pair Some
      by (auto simp: start_server_find bounds_ok_def split: prod.splits sum.splits)
  qed
qed

lemma exec_bounds: "bounds_ok lo hi st \<Longrightarrow> bounds_ok lo hi (exec lib c st)"
proof (cases c)
  case (Start x)
  assume "bounds_ok lo hi st"
  then show ?thesis using Start by (simp add: start_server_bounds)
next
  case (Get x)
  assume "bounds_ok lo hi st"
  then show ?thesis using Get
    by (cases st) (simp add: get_server_def bounds_ok_def split: option.splits)
next
  case (Stop x)
  assume "bounds_ok lo hi st"
  then show ?thesis using Stop
    by (cases st) (simp add: stop_server_def bounds_ok_def split: option.splits)
qed

lemma run_bounds: "bounds_ok lo hi st \<Longrightarrow> bounds_ok lo hi (run lib calls st)"
  by (induction calls arbitrary: st) (simp_all add: exec_bounds)


lemma try_port_no_probe:
  "\<not> probe_ok os port \<Longrightarrow> isl (fst (try_port lib port os))"
  by (auto simp: try_port_def socket_bind_def probe_ok_def split: sum.splits prod.splits)





section \<open>Failure and success of the port search\<close>

lemma start_server_raises:
  assumes "fst (start_server lib server_id (m, os)) = Inl e"
  shows "snd (start_server lib server_id (m, os)) = (m, os)"
  using assms
  by (auto simp: start_server_find split: if_splits option.splits prod.splits sum.splits)

lemma start_server_returns:
  assumes "start_server lib server_id (m, os) = (Inr server, m', os')"
  shows "probe_ok os (last_port m')"
    and "min_port m \<le> last_port m'" and "last_port m' \<le> max_port m"
    and "m' = m\<lparr>server_from_session_hash := (server_from_session_hash m)(server_id \<mapsto> server),
               last_port := last_port m'\<rparr>"
    and "os' = os\<lparr>live := live os @ [server]\<rparr>"
    and "get_port server \<notin> foreign os" and "get_port server \<notin> get_port ` set (live os)"
proof -
  from assms obtain port where
    f: "find (\<lambda>port. fst (try_port lib port os) \<noteq> Inl OSError)
          (map (port_at m) [0..port_range_size m - 1]) = Some port"
    by (cases "find (\<lambda>port. fst (try_port lib port os) \<noteq> Inl OSError)
                 (map (port_at m) [0..port_range_size m - 1])")
       (auto simp: start_server_find split: if_splits)
  with assms have t: "try_port lib port os = (Inr server, os')"
    and m': "m' = m\<lparr>server_from_session_hash := (server_from_session_hash m)(server_id \<mapsto> server),
               last_port := port\<rparr>"
    by (auto simp: start_server_find split: if_splits prod.splits sum.splits)
  have l: "last_port m' = port" using m' by simp
  note r = try_port_returns [OF t]
  show "probe_ok os (last_port m')" using r(1) l by simp
  show "min_port m \<le> last_port m'" "last_port m' \<le> max_port m"
    using find_port_at_range(2,3) [OF f] l by simp_all
  show "m' = m\<lparr>server_from_session_hash := (server_from_session_hash m)(server_id \<mapsto> server),
               last_port := last_port m'\<rparr>"
    using m' by simp
  show "os' = os\<lparr>live := live os @ [server]\<rparr>" by (rule r(2))
  show "get_port server \<notin> foreign os" "get_port server \<notin> get_port ` set (live os)"
    by (rule r(3), rule r(4))
qed

text \<open>
  C10. A call of \<open>start_server\<close> that raises leaves the manager and the interface as they
  were: no entry is added to the session map, no backend is launched and the last port keeps
  its value. In particular the call raises, and leaves everything so, when no port of the
  range can be bound. The map and the last port change only in a call that returns a backend:
  then the last port is a port of the range that the probing socket bound successfully, the
  entry of the id is the returned backend, and that backend is the one launched.
\<close>

theorem start_server_failure_unchanged:
  "(fst (start_server lib server_id (m, os)) = Inl e
      \<longrightarrow> snd (start_server lib server_id (m, os)) = (m, os)) \<and>
   ((\<forall>port\<in>{min_port m..max_port m}. \<not> probe_ok os port)
      \<longrightarrow> isl (fst (start_server lib server_id (m, os))) \<and>
          snd (start_server lib server_id (m, os)) = (m, os)) \<and>
   (start_server lib server_id (m, os) = (Inr server, m', os')
      \<longrightarrow> probe_ok os (last_port m') \<and>
          min_port m \<le> last_port m' \<and> last_port m' \<le> max_port m \<and>
          m' = m\<lparr>server_from_session_hash := (server_from_session_hash m)(server_id \<mapsto> server),
                 last_port := last_port m'\<rparr> \<and>
          os' = os\<lparr>live := live os @ [server]\<rparr>)"
proof -
  have raised: "snd (start_server lib server_id (m, os)) = (m, os)"
    if "fst (start_server lib server_id (m, os)) = Inl e" for e
    using that by (rule start_server_raises)
  have full: "isl (fst (start_server lib server_id (m, os)))"
    if none: "\<forall>port\<in>{min_port m..max_port m}. \<not> probe_ok os port"
  proof (cases "fst (start_server lib server_id (m, os))")
    case (Inl e)
    then show ?thesis by simp
  next
    case (Inr server)
    then obtain m' os' where "start_server lib server_id (m, os) = (Inr server, m', os')"
      by (cases "start_server lib server_id (m, os)") auto
    from start_server_returns(1-3) [OF this] none show ?thesis by auto
  qed
  have full': "snd (start_server lib server_id (m, os)) = (m, os)"
    if "\<forall>port\<in>{min_port m..max_port m}. \<not> probe_ok os port"
    using full [OF that] raised by (cases "fst (start_server lib server_id (m, os))") auto
  have returned: "probe_ok os (last_port m') \<and>
          min_port m \<le> last_port m' \<and> last_port m' \<le> max_port m \<and>
          m' = m\<lparr>server_from_session_hash := (server_from_session_hash m)(server_id \<mapsto> server),
                 last_port := last_port m'\<rparr> \<and>
          os' = os\<lparr>live := live os @ [server]\<rparr>"
    if "start_server lib server_id (m, os) = (Inr server, m', os')"
    using start_server_returns(1-5) [OF that] by blast
  show ?thesis using raised full full' returned by blast
qed

theorem start_server_failure_unchanged_witness:
  "start_server next_ports ''a''
     (ViserProxyManager 8000 8001, \<lparr>foreign = {8000, 8001}, live = [], probe = {}\<rparr>) =
     (Inl RuntimeError,
      ViserProxyManager 8000 8001, \<lparr>foreign = {8000, 8001}, live = [], probe = {}\<rparr>) \<and>
   start_server next_ports ''a''
     (ViserProxyManager 8000 8001, \<lparr>foreign = {8000}, live = [], probe = {}\<rparr>) =
     (Inr \<lparr>get_port = 8002\<rparr>,
      \<lparr>min_port = 8000, max_port = 8001,
       server_from_session_hash = [''a'' \<mapsto> \<lparr>get_port = 8002\<rparr>], last_port = 8001\<rparr>,
      \<lparr>foreign = {8000}, live = [\<lparr>get_port = 8002\<rparr>], probe = {}\<rparr>) \<and>
   probe_ok \<lparr>foreign = {8000}, live = [], probe = {}\<rparr> 8001"
proof -
  have full: "\<forall>port\<in>{min_port (ViserProxyManager 8000 8001)..max_port (ViserProxyManager 8000 8001)}.
      \<not> probe_ok \<lparr>foreign = {8000, 8001}, live = [], probe = {}\<rparr> port"
  proof
    fix port :: int
    assume "port \<in> {min_port (ViserProxyManager 8000 8001)..max_port (ViserProxyManager 8000 8001)}"
    then have "port = 8000 \<or> port = 8001" by (auto simp: ViserProxyManager_def)
    then show "\<not> probe_ok \<lparr>foreign = {8000, 8001}, live = [], probe = {}\<rparr> port"
      by (auto simp: probe_ok_def bind_ok_def)
  qed
  have e: "fst (start_server next_ports ''a''
     (ViserProxyManager 8000 8001, \<lparr>foreign = {8000, 8001}, live = [], probe = {}\<rparr>)) =
     Inl RuntimeError"
    by (simp add: eval_defs)
  have failing:
    "start_server next_ports ''a''
       (ViserProxyManager 8000 8001, \<lparr>foreign = {8000, 8001}, live = [], probe = {}\<rparr>) =
       (Inl RuntimeError,
        ViserProxyManager 8000 8001, \<lparr>foreign = {8000, 8001}, live = [], probe = {}\<rparr>)"
    using start_server_failure_unchanged
            [of next_ports "''a''" "ViserProxyManager 8000 8001"
               "\<lparr>foreign = {8000, 8001}, live = [], probe = {}\<rparr>"]
          full e
    by (metis prod.collapse)
  have returning:
    "start_server next_ports ''a''
       (ViserProxyManager 8000 8001, \<lparr>foreign = {8000}, live = [], probe = {}\<rparr>) =
       (Inr \<lparr>get_port = 8002\<rparr>,
        \<lparr>min_port = 8000, max_port = 8001,
         server_from_session_hash = [''a'' \<mapsto> \<lparr>get_port = 8002\<rparr>], last_port = 8001\<rparr>,
        \<lparr>foreign = {8000}, live = [\<lparr>get_port = 8002\<rparr>], probe = {}\<rparr>)"
    by (simp add: eval_defs)
  have "probe_ok \<lparr>foreign = {8000}, live = [], probe = {}\<rparr>
          (last_port \<lparr>min_port = 8000, max_port = 8001,
         server_from_session_hash = [''a'' \<mapsto> \<lparr>get_port = 8002\<rparr>], last_port = 8001\<rparr>)"
    using start_server_failure_unchanged
            [of next_ports "''a''" "ViserProxyManager 8000 8001"
               "\<lparr>foreign = {8000}, live = [], probe = {}\<rparr>" _
               "\<lparr>get_port = 8002\<rparr>"
               "\<lparr>min_port = 8000, max_port = 8001,
                 server_from_session_hash = [''a'' \<mapsto> \<lparr>get_port = 8002\<rparr>], last_port = 8001\<rparr>"
               "\<lparr>foreign = {8000}, live = [\<lparr>get_port = 8002\<rparr>], probe = {}\<rparr>"]
          returning
    by blast
  then have "probe_ok \<lparr>foreign = {8000}, live = [], probe = {}\<rparr> 8001" by simp
  with failing returning show ?thesis by blast
qed

section \<open>Leases\<close>

lemma leases_ok_init:
  "leases_ok (ViserProxyManager lo hi, \<lparr>foreign = F, live = [], probe = {}\<rparr>)"
  by (simp add: leases_ok_def ViserProxyManager_def)

lemma start_server_leases:
  assumes "leases_ok st"
  shows "leases_ok (snd (start_server lib server_id st))"
proof (cases st)
  case (Pair m os)
  show ?thesis
  proof (cases "start_server lib server_id (m, os)")
    case (fields r m' os')
    show ?thesis
    proof (cases r)
      case (Inl e)
      then have "snd (start_server lib server_id (m, os)) = (m, os)"
        using fields start_server_raises [of lib server_id m os e] by simp
      then show ?thesis using assms Pair by simp
    next
      case (Inr server)
      then have s: "start_server lib server_id (m, os) = (Inr server, m', os')"
        using fields by simp
      note r = start_server_returns [OF s]
      from assms Pair have a: "probe os = {}" "distinct (map get_port (live os))"
        "get_port ` set (live os) \<inter> foreign os = {}"
        "\<And>i s. server_from_session_hash m i = Some s \<Longrightarrow> s \<in> set (live os)"
        "\<And>i j s. i \<noteq> j \<Longrightarrow> server_from_session_hash m i = Some s
           \<Longrightarrow> server_from_session_hash m j \<noteq> Some s"
        by (simp_all add: leases_ok_def)
      have fresh: "server \<notin> set (live os)" using r(7) by auto
      have map': "server_from_session_hash m' =
          (server_from_session_hash m)(server_id \<mapsto> server)"
        using r(4) by (metis manager.select_convs(3) manager.surjective manager.update_convs(3,4))
      have p: "probe os' = {}" using r(5) a(1) by simp
      have d: "distinct (map get_port (live os'))"
        using a(2) r(5,7) by simp
      have f: "get_port ` set (live os') \<inter> foreign os' = {}"
        using a(3) r(5,6) by simp
      have l: "s \<in> set (live os')" if "server_from_session_hash m' i = Some s" for i s
        using that a(4) r(5) map' by (cases "i = server_id") auto
      have i: "server_from_session_hash m' j \<noteq> Some s"
        if "i \<noteq> j" "server_from_session_hash m' i = Some s" for i j s
      proof (cases "i = server_id")
        case True
        then have "s = server" using that(2) map' by simp
        moreover have "server_from_session_hash m j \<noteq> Some server"
          using a(4) fresh by blast
        ultimately show ?thesis using True that(1) map' by simp
      next
        case False
        then have old: "server_from_session_hash m i = Some s" using that(2) map' by simp
        then have "s \<noteq> server" using a(4) fresh by blast
        then show ?thesis using a(5) [OF that(1) old] map' by simp
      qed
      have "leases_ok (m', os')"
        unfolding leases_ok_def using p d f l i by simp
      then show ?thesis using Pair s by simp
    qed
  qed
qed

lemma stop_server_leases:
  assumes "leases_ok st"
  shows "leases_ok (snd (stop_server server_id st))"
proof (cases st)
  case (Pair m os)
  show ?thesis
  proof (cases "server_from_session_hash m server_id")
    case None
    then show ?thesis using assms Pair by (simp add: stop_server_def)
  next
    case (Some server)
    from assms Pair have a: "probe os = {}" "distinct (map get_port (live os))"
      "get_port ` set (live os) \<inter> foreign os = {}"
      "\<And>i s. server_from_session_hash m i = Some s \<Longrightarrow> s \<in> set (live os)"
      "\<And>i j s. i \<noteq> j \<Longrightarrow> server_from_session_hash m i = Some s
         \<Longrightarrow> server_from_session_hash m j \<noteq> Some s"
      by (simp_all add: leases_ok_def)
    have st': "snd (stop_server server_id st) =
        (m\<lparr>server_from_session_hash := (server_from_session_hash m)(server_id := None)\<rparr>,
         os\<lparr>live := remove1 server (live os)\<rparr>)"
      using Pair Some by (simp add: stop_server_def stop_def)
    have sub: "set (remove1 server (live os)) \<subseteq> set (live os)"
      by (rule set_remove1_subset)
    have d: "distinct (map get_port (remove1 server (live os)))"
      using a(2) sub by (auto simp: distinct_map intro: inj_on_subset)
    have f: "get_port ` set (remove1 server (live os)) \<inter> foreign os = {}"
      using a(3) sub by blast
    have r: "s \<in> set (remove1 server (live os))"
      if "i \<noteq> server_id" "server_from_session_hash m i = Some s" for i s
    proof -
      have "s \<noteq> server" using a(5) [OF that(1) that(2)] Some by auto
      then show ?thesis using a(4) [OF that(2)] by simp
    qed
    show ?thesis
      unfolding leases_ok_def st' using a(1) d f r a(5) by auto
  qed
qed

lemma exec_leases: "leases_ok st \<Longrightarrow> leases_ok (exec lib c st)"
proof (cases c)
  case (Start x)
  assume "leases_ok st"
  then show ?thesis using Start by (simp add: start_server_leases)
next
  case (Get x)
  assume "leases_ok st"
  then show ?thesis using Get
    by (cases st) (simp add: get_server_def split: option.splits)
next
  case (Stop x)
  assume "leases_ok st"
  then show ?thesis using Stop by (simp add: stop_server_leases)
qed

lemma run_leases: "leases_ok st \<Longrightarrow> leases_ok (run lib calls st)"
  by (induction calls arbitrary: st) (simp_all add: exec_leases)



section \<open>Lookup and teardown\<close>

lemma exec_absent:
  assumes "server_from_session_hash (fst st) server_id = None" "c \<noteq> Start server_id"
  shows "server_from_session_hash (fst (exec lib c st)) server_id = None"
proof (cases st)
  case (Pair m os)
  show ?thesis
  proof (cases c)
    case (Start x)
    then have x: "x \<noteq> server_id" using assms(2) by simp
    show ?thesis
    proof (cases "start_server lib x (m, os)")
      case (fields r m' os')
      show ?thesis
      proof (cases r)
        case (Inl e)
        then have "snd (start_server lib x (m, os)) = (m, os)"
          using fields start_server_raises [of lib x m os e] by simp
        then show ?thesis using assms(1) Pair Start by simp
      next
        case (Inr server)
        then have "start_server lib x (m, os) = (Inr server, m', os')" using fields by simp
        from start_server_returns(4) [OF this]
        have "server_from_session_hash m' = (server_from_session_hash m)(x \<mapsto> server)"
          by (metis manager.select_convs(3) manager.surjective manager.update_convs(3,4))
        then show ?thesis using assms(1) Pair Start fields x by simp
      qed
    qed
  next
    case (Get x)
    then show ?thesis using assms(1) Pair
      by (simp add: get_server_def split: option.splits)
  next
    case (Stop x)
    then show ?thesis using assms(1) Pair
      by (simp add: stop_server_def split: option.splits)
  qed
qed

lemma run_absent:
  "server_from_session_hash (fst st) server_id = None \<Longrightarrow> Start server_id \<notin> set calls
     \<Longrightarrow> server_from_session_hash (fst (run lib calls st)) server_id = None"
proof (induction calls arbitrary: st)
  case Nil
  then show ?case by simp
next
  case (Cons c calls)
  then have "server_from_session_hash (fst (exec lib c st)) server_id = None"
    by (intro exec_absent) auto
  with Cons show ?case by simp
qed

lemma stop_server_absent:
  "server_from_session_hash (fst (snd (stop_server server_id st))) server_id = None"
  by (cases st) (simp add: stop_server_def split: option.splits)

lemma get_server_KeyError:
  "server_from_session_hash (fst st) server_id = None
     \<Longrightarrow> get_server server_id st = (Inl KeyError, st)"
  by (cases st) (simp add: get_server_def)

text \<open>
  C8. \<open>get_server\<close> is a lookup: it returns the manager and the interface as it found them.
  It raises \<^verbatim>\<open>KeyError\<close>, the session not being found, for an id that has no entry; this
  is so after any calls on a fresh manager none of which starts the id, and after a
  \<open>stop_server\<close> of the id followed by any calls none of which starts it again.
\<close>

theorem get_server_not_found:
  "snd (get_server server_id st) = st \<and>
   (server_from_session_hash (fst st) server_id = None
      \<longrightarrow> fst (get_server server_id st) = Inl KeyError) \<and>
   (Start server_id \<notin> set calls
      \<longrightarrow> fst (get_server server_id (run lib calls (ViserProxyManager lo hi, os0))) =
          Inl KeyError) \<and>
   (Start server_id \<notin> set calls
      \<longrightarrow> fst (get_server server_id (run lib (Stop server_id # calls) st)) = Inl KeyError)"
proof -
  have pure: "snd (get_server server_id st) = st"
    by (cases st) (simp add: get_server_def split: option.splits)
  have never:
    "fst (get_server server_id (run lib calls (ViserProxyManager lo hi, os0))) = Inl KeyError"
    if "Start server_id \<notin> set calls"
  proof -
    have "server_from_session_hash (fst (ViserProxyManager lo hi, os0)) server_id = None"
      by (simp add: ViserProxyManager_def)
    from run_absent [OF this that] show ?thesis by (simp add: get_server_KeyError)
  qed
  have stopped:
    "fst (get_server server_id (run lib (Stop server_id # calls) st)) = Inl KeyError"
    if "Start server_id \<notin> set calls"
  proof -
    have "server_from_session_hash (fst (run lib calls (exec lib (Stop server_id) st))) server_id =
          None"
      using that by (intro run_absent) (simp_all add: stop_server_absent)
    then show ?thesis by (simp add: get_server_KeyError)
  qed
  show ?thesis using pure never stopped by (simp add: get_server_KeyError)
qed

theorem get_server_not_found_witness:
  "Start ''b'' \<notin> set [Start ''a'', Get ''b''] \<and>
   fst (get_server ''b''
          (run next_ports [Start ''a'', Get ''b'']
             (ViserProxyManager 8000 8002, \<lparr>foreign = {}, live = [], probe = {}\<rparr>))) =
     Inl KeyError \<and>
   Start ''a'' \<notin> set [Get ''a''] \<and>
   fst (get_server ''a''
          (run next_ports (Stop ''a'' # [Get ''a''])
             (run next_ports [Start ''a'']
                (ViserProxyManager 8000 8002, \<lparr>foreign = {}, live = [], probe = {}\<rparr>)))) =
     Inl KeyError"
proof -
  have n1: "Start ''b'' \<notin> set [Start ''a'', Get ''b'']" by simp
  have n2: "Start ''a'' \<notin> set [Get ''a'']" by simp
  from get_server_not_found
         [of "''b''" _ "[Start ''a'', Get ''b'']" next_ports 8000 8002
            "\<lparr>foreign = {}, live = [], probe = {}\<rparr>"]
       get_server_not_found
         [of "''a''"
            "run next_ports [Start ''a'']
               (ViserProxyManager 8000 8002, \<lparr>foreign = {}, live = [], probe = {}\<rparr>)"
            "[Get ''a'']" next_ports]
       n1 n2
  show ?thesis by blast
qed

text \<open>
  C7, as the claim has it: calling \<open>stop_server\<close> for an id with no active session does not
  raise. The second of two stops of the same session raises \<^verbatim>\<open>KeyError\<close>.
\<close>

theorem stop_server_twice_counterexample:
  "stop_server ''a''
     (run next_ports [Start ''a'', Stop ''a'']
        (ViserProxyManager 8000 8002, \<lparr>foreign = {}, live = [], probe = {}\<rparr>)) =
   (Inl KeyError,
    \<lparr>min_port = 8000, max_port = 8002, server_from_session_hash = Map.empty, last_port = 8000\<rparr>,
    \<lparr>foreign = {}, live = [], probe = {}\<rparr>)"
  by (simp add: eval_defs)

text \<open>
  C7, amended. On a manager after any calls, \<open>stop_server\<close> for a registered id removes the
  entry and stops its backend: the backend was running, is no longer among the running
  ones, and its port can be bound again. For an id with no entry it raises \<^verbatim>\<open>KeyError\<close>
  and changes nothing.
\<close>

theorem stop_server_stops_or_raises:
  assumes "run lib calls (ViserProxyManager lo hi, \<lparr>foreign = F, live = [], probe = {}\<rparr>) = (m, os)"
  shows "case server_from_session_hash m server_id of
           None \<Rightarrow> stop_server server_id (m, os) = (Inl KeyError, m, os)
         | Some server \<Rightarrow>
             stop_server server_id (m, os) =
               (Inr (),
                m\<lparr>server_from_session_hash := (server_from_session_hash m)(server_id := None)\<rparr>,
                os\<lparr>live := remove1 server (live os)\<rparr>) \<and>
             server \<in> set (live os) \<and>
             server \<notin> set (remove1 server (live os)) \<and>
             bind_ok (os\<lparr>live := remove1 server (live os)\<rparr>) (get_port server)"
proof (cases "server_from_session_hash m server_id")
  case None
  then show ?thesis by (simp add: stop_server_def)
next
  case (Some server)
  have "leases_ok (run lib calls (ViserProxyManager lo hi, \<lparr>foreign = F, live = [], probe = {}\<rparr>))"
    by (simp add: run_leases leases_ok_init)
  then have a: "probe os = {}" "distinct (map get_port (live os))"
      "get_port ` set (live os) \<inter> foreign os = {}"
      "\<And>i s. server_from_session_hash m i = Some s \<Longrightarrow> s \<in> set (live os)"
    using assms by (simp_all add: leases_ok_def)
  have running: "server \<in> set (live os)" using a(4) Some by blast
  have d: "distinct (live os)" "inj_on get_port (set (live os))"
    using a(2) by (simp_all add: distinct_map)
  have gone: "server \<notin> set (remove1 server (live os))"
    using d(1) by simp
  have "get_port server \<notin> get_port ` set (remove1 server (live os))"
  proof
    assume "get_port server \<in> get_port ` set (remove1 server (live os))"
    then obtain s where s: "s \<in> set (remove1 server (live os))" "get_port s = get_port server"
      by auto
    then have "s \<in> set (live os)" using set_remove1_subset by fast
    with s(2) running d(2) have "s = server" by (auto dest: inj_onD)
    with s(1) gone show False by simp
  qed
  moreover have "get_port server \<notin> foreign os" using a(3) running by blast
  ultimately have "bind_ok (os\<lparr>live := remove1 server (live os)\<rparr>) (get_port server)"
    using a(1) by (simp add: bind_ok_def)
  then show ?thesis using Some running gone by (simp add: stop_server_def stop_def)
qed

theorem stop_server_stops_or_raises_witness:
  "run next_ports [Start ''a'', Start ''b'']
     (ViserProxyManager 8000 8002, \<lparr>foreign = {}, live = [], probe = {}\<rparr>) =
     (\<lparr>min_port = 8000, max_port = 8002,
       server_from_session_hash = [''a'' \<mapsto> \<lparr>get_port = 8001\<rparr>, ''b'' \<mapsto> \<lparr>get_port = 8003\<rparr>],
       last_port = 8002\<rparr>,
      \<lparr>foreign = {}, live = [\<lparr>get_port = 8001\<rparr>, \<lparr>get_port = 8003\<rparr>], probe = {}\<rparr>) \<and>
   stop_server ''a''
     (\<lparr>min_port = 8000, max_port = 8002,
       server_from_session_hash = [''a'' \<mapsto> \<lparr>get_port = 8001\<rparr>, ''b'' \<mapsto> \<lparr>get_port = 8003\<rparr>],
       last_port = 8002\<rparr>,
      \<lparr>foreign = {}, live = [\<lparr>get_port = 8001\<rparr>, \<lparr>get_port = 8003\<rparr>], probe = {}\<rparr>) =
     (Inr (),
      \<lparr>min_port = 8000, max_port = 8002,
       server_from_session_hash = [''b'' \<mapsto> \<lparr>get_port = 8003\<rparr>], last_port = 8002\<rparr>,
      \<lparr>foreign = {}, live = [\<lparr>get_port = 8003\<rparr>], probe = {}\<rparr>) \<and>
   stop_server ''c''
     (\<lparr>min_port = 8000, max_port = 8002,
       server_from_session_hash = [''a'' \<mapsto> \<lparr>get_port = 8001\<rparr>, ''b'' \<mapsto> \<lparr>get_port = 8003\<rparr>],
       last_port = 8002\<rparr>,
      \<lparr>foreign = {}, live = [\<lparr>get_port = 8001\<rparr>, \<lparr>get_port = 8003\<rparr>], probe = {}\<rparr>) =
     (Inl KeyError,
      \<lparr>min_port = 8000, max_port = 8002,
       server_from_session_hash = [''a'' \<mapsto> \<lparr>get_port = 8001\<rparr>, ''b'' \<mapsto> \<lparr>get_port = 8003\<rparr>],
       last_port = 8002\<rparr>,
      \<lparr>foreign = {}, live = [\<lparr>get_port = 8001\<rparr>, \<lparr>get_port = 8003\<rparr>], probe = {}\<rparr>)"
proof -
  have r: "run next_ports [Start ''a'', Start ''b'']
     (ViserProxyManager 8000 8002, \<lparr>foreign = {}, live = [], probe = {}\<rparr>) =
     (\<lparr>min_port = 8000, max_port = 8002,
       server_from_session_hash = [''a'' \<mapsto> \<lparr>get_port = 8001\<rparr>, ''b'' \<mapsto> \<lparr>get_port = 8003\<rparr>],
       last_port = 8002\<rparr>,
      \<lparr>foreign = {}, live = [\<lparr>get_port = 8001\<rparr>, \<lparr>get_port = 8003\<rparr>], probe = {}\<rparr>)"
    by (simp add: eval_defs)
  have e: "[''a'' \<mapsto> \<lparr>get_port = 8001::int\<rparr>, ''b'' \<mapsto> \<lparr>get_port = 8003\<rparr>](''a'' := None) =
           [''b'' \<mapsto> \<lparr>get_port = 8003\<rparr>]"
    by (simp add: fun_upd_twist)
  from stop_server_stops_or_raises [OF r, of "''a''"] stop_server_stops_or_raises [OF r, of "''c''"] r e
  show ?thesis by simp
qed

section \<open>Starting a session that is already active\<close>

lemma start_server_search:
  assumes "bounds_ok lo hi (m, os)" and "lo \<le> hi"
  shows "set (round_robin_order lo hi (last_port m)) = {lo..hi}"
    and "start_server lib server_id (m, os) =
           (case find (\<lambda>port. fst (try_port lib port os) \<noteq> Inl OSError)
                   (round_robin_order lo hi (last_port m)) of
              None \<Rightarrow> (Inl RuntimeError, m, os)
            | Some port \<Rightarrow>
                (case try_port lib port os of
                   (Inl e, os') \<Rightarrow> (Inl e, m, os)
                 | (Inr server, os') \<Rightarrow>
                     (Inr server,
                      m\<lparr>server_from_session_hash :=
                          (server_from_session_hash m)(server_id \<mapsto> server),
                        last_port := port\<rparr>,
                      os')))"
proof -
  from assms(1) have b: "min_port m = lo" "max_port m = hi" "lo - 1 \<le> last_port m"
      "last_port m \<le> hi"
    by (simp_all add: bounds_ok_def)
  show "set (round_robin_order lo hi (last_port m)) = {lo..hi}"
    using round_robin_order_perm(2) [OF b(3,4)] .
  have "map (port_at m) [0..port_range_size m - 1] = round_robin_order lo hi (last_port m)"
    using scan_order [of m] b assms(2) by simp
  moreover have "port_range_size m \<noteq> 0"
    using b assms(2) by (simp add: port_range_size_def)
  ultimately show "start_server lib server_id (m, os) =
           (case find (\<lambda>port. fst (try_port lib port os) \<noteq> Inl OSError)
                   (round_robin_order lo hi (last_port m)) of
              None \<Rightarrow> (Inl RuntimeError, m, os)
            | Some port \<Rightarrow>
                (case try_port lib port os of
                   (Inl e, os') \<Rightarrow> (Inl e, m, os)
                 | (Inr server, os') \<Rightarrow>
                     (Inr server,
                      m\<lparr>server_from_session_hash :=
                          (server_from_session_hash m)(server_id \<mapsto> server),
                        last_port := port\<rparr>,
                      os')))"
    by (simp add: start_server_find)
qed

text \<open>
  C6, as the claim has it: a second \<open>start_server\<close> for an active id is rejected, or the
  prior backend is stopped and its lease released. Started twice, with a library that goes on
  to the next ports, the session \<^verbatim>\<open>a\<close> first has a backend on port 8001 and then gets a
  second one on port 8003, while the first is still running and still holds port 8001.
\<close>

theorem start_server_twice_counterexample:
  "server_from_session_hash
     (fst (run next_ports [Start ''a'']
        (ViserProxyManager 8000 8002, \<lparr>foreign = {}, live = [], probe = {}\<rparr>))) ''a'' =
     Some \<lparr>get_port = 8001\<rparr> \<and>
   fst (start_server next_ports ''a''
          (run next_ports [Start ''a'']
             (ViserProxyManager 8000 8002, \<lparr>foreign = {}, live = [], probe = {}\<rparr>))) =
     Inr \<lparr>get_port = 8003\<rparr> \<and>
   \<lparr>get_port = 8001\<rparr> \<in>
     set (live (snd (snd (start_server next_ports ''a''
          (run next_ports [Start ''a'']
             (ViserProxyManager 8000 8002, \<lparr>foreign = {}, live = [], probe = {}\<rparr>)))))) \<and>
   \<not> bind_ok
       (snd (snd (start_server next_ports ''a''
          (run next_ports [Start ''a'']
             (ViserProxyManager 8000 8002, \<lparr>foreign = {}, live = [], probe = {}\<rparr>))))) 8001"
  by (simp add: eval_defs)

text \<open>
  C6, amended. Take a manager after any calls and an id that is already registered, and let
  the search be able to succeed: at some port of the range the block launches a backend, and
  at no port of the range it raises anything but \<^verbatim>\<open>OSError\<close>. Then \<open>start_server\<close> for this id
  is not rejected: it returns a further backend, on a port different from that of the prior
  one, and has replaced the entry of the id by it, the other entries being as before; the
  session map, a dictionary, holds one backend for the id. The prior backend is not stopped:
  it is still running, its port still cannot be bound, and no id is registered with it any
  more.
\<close>

theorem start_server_replaces_entry:
  assumes "run lib calls (ViserProxyManager lo hi, \<lparr>foreign = F, live = [], probe = {}\<rparr>) = (m, os)"
    and "server_from_session_hash m server_id = Some old"
    and "free \<in> {lo..hi}" and "\<not> isl (fst (try_port lib free os))"
    and "\<forall>port\<in>{lo..hi}. isl (fst (try_port lib port os))
           \<longrightarrow> fst (try_port lib port os) = Inl OSError"
  shows "\<exists>new m' os'.
           start_server lib server_id (m, os) = (Inr new, m', os') \<and>
           server_from_session_hash m' server_id = Some new \<and>
           (\<forall>other. other \<noteq> server_id
              \<longrightarrow> server_from_session_hash m' other = server_from_session_hash m other) \<and>
           get_port new \<noteq> get_port old \<and>
           live os' = live os @ [new] \<and>
           old \<in> set (live os') \<and>
           \<not> bind_ok os' (get_port old) \<and>
           (\<forall>any_id. server_from_session_hash m' any_id \<noteq> Some old)"
proof -
  have le: "lo \<le> hi" using assms(3) by simp
  have "leases_ok (run lib calls (ViserProxyManager lo hi, \<lparr>foreign = F, live = [], probe = {}\<rparr>))"
    by (simp add: run_leases leases_ok_init)
  then have a:
      "\<And>i s. server_from_session_hash m i = Some s \<Longrightarrow> s \<in> set (live os)"
      "\<And>i j s. i \<noteq> j \<Longrightarrow> server_from_session_hash m i = Some s
         \<Longrightarrow> server_from_session_hash m j \<noteq> Some s"
    using assms(1) by (simp_all add: leases_ok_def)
  have "bounds_ok lo hi (run lib calls (ViserProxyManager lo hi, \<lparr>foreign = F, live = [], probe = {}\<rparr>))"
    using le by (simp add: run_bounds bounds_ok_init)
  then have b: "bounds_ok lo hi (m, os)" using assms(1) by simp
  note search = start_server_search [OF b le]
  have "free \<in> set (round_robin_order lo hi (last_port m))"
    using search(1) assms(3) by simp
  moreover have "fst (try_port lib free os) \<noteq> Inl OSError" using assms(4) by auto
  ultimately obtain port where
    f: "find (\<lambda>port. fst (try_port lib port os) \<noteq> Inl OSError)
          (round_robin_order lo hi (last_port m)) = Some port"
    by (cases "find (\<lambda>port. fst (try_port lib port os) \<noteq> Inl OSError)
          (round_robin_order lo hi (last_port m))") (auto simp: find_None_iff)
  then have p: "port \<in> {lo..hi}" "fst (try_port lib port os) \<noteq> Inl OSError"
    using search(1) unfolding find_Some_iff by (metis nth_mem, blast)
  then have "\<not> isl (fst (try_port lib port os))" using assms(5) by blast
  then obtain new os' where t: "try_port lib port os = (Inr new, os')"
    by (cases "try_port lib port os"; cases "fst (try_port lib port os)") auto
  define m' where
    "m' = m\<lparr>server_from_session_hash := (server_from_session_hash m)(server_id \<mapsto> new),
            last_port := port\<rparr>"
  have s: "start_server lib server_id (m, os) = (Inr new, m', os')"
    using search(2) [of lib server_id] f t by (simp add: m'_def)
  note r = try_port_returns [OF t]
  have running: "old \<in> set (live os)" using a(1) assms(2) by blast
  have ports: "get_port new \<noteq> get_port old" using r(4) running by auto
  have unreachable: "server_from_session_hash m' any_id \<noteq> Some old" for any_id
  proof (cases "any_id = server_id")
    case True
    then show ?thesis using ports by (auto simp: m'_def)
  next
    case False
    then show ?thesis using a(2) [OF _ assms(2), of any_id] by (auto simp: m'_def)
  qed
  have "server_from_session_hash m' server_id = Some new" by (simp add: m'_def)
  moreover have "\<forall>other. other \<noteq> server_id
      \<longrightarrow> server_from_session_hash m' other = server_from_session_hash m other"
    by (simp add: m'_def)
  moreover have "live os' = live os @ [new]" using r(2) by simp
  moreover have "old \<in> set (live os')" using r(2) running by simp
  moreover have "\<not> bind_ok os' (get_port old)" using r(2) running by (simp add: bind_ok_def)
  ultimately show ?thesis using s ports unreachable by blast
qed

theorem start_server_replaces_entry_witness:
  "run next_ports [Start ''a'']
     (ViserProxyManager 8000 8002, \<lparr>foreign = {}, live = [], probe = {}\<rparr>) =
     (\<lparr>min_port = 8000, max_port = 8002,
       server_from_session_hash = [''a'' \<mapsto> \<lparr>get_port = 8001\<rparr>], last_port = 8000\<rparr>,
      \<lparr>foreign = {}, live = [\<lparr>get_port = 8001\<rparr>], probe = {}\<rparr>) \<and>
   [''a'' \<mapsto> \<lparr>get_port = 8001::int\<rparr>] ''a'' = Some \<lparr>get_port = 8001\<rparr> \<and>
   (8002::int) \<in> {8000..8002} \<and>
   try_port next_ports 8002 \<lparr>foreign = {}, live = [\<lparr>get_port = 8001\<rparr>], probe = {}\<rparr> =
     (Inr \<lparr>get_port = 8003\<rparr>,
      \<lparr>foreign = {}, live = [\<lparr>get_port = 8001\<rparr>, \<lparr>get_port = 8003\<rparr>], probe = {}\<rparr>) \<and>
   start_server next_ports ''a''
     (\<lparr>min_port = 8000, max_port = 8002,
       server_from_session_hash = [''a'' \<mapsto> \<lparr>get_port = 8001\<rparr>], last_port = 8000\<rparr>,
      \<lparr>foreign = {}, live = [\<lparr>get_port = 8001\<rparr>], probe = {}\<rparr>) =
     (Inr \<lparr>get_port = 8003\<rparr>,
      \<lparr>min_port = 8000, max_port = 8002,
       server_from_session_hash = [''a'' \<mapsto> \<lparr>get_port = 8003\<rparr>], last_port = 8002\<rparr>,
      \<lparr>foreign = {}, live = [\<lparr>get_port = 8001\<rparr>, \<lparr>get_port = 8003\<rparr>], probe = {}\<rparr>) \<and>
   \<lparr>get_port = 8001::int\<rparr> \<in> set [\<lparr>get_port = 8001\<rparr>, \<lparr>get_port = 8003\<rparr>] \<and>
   \<not> bind_ok \<lparr>foreign = {}, live = [\<lparr>get_port = 8001\<rparr>, \<lparr>get_port = 8003\<rparr>], probe = {}\<rparr> 8001"
proof -
  let ?m = "\<lparr>min_port = 8000, max_port = 8002,
       server_from_session_hash = [''a'' \<mapsto> \<lparr>get_port = 8001\<rparr>], last_port = 8000\<rparr>"
  let ?os = "\<lparr>foreign = {}, live = [\<lparr>get_port = 8001\<rparr>], probe = {}\<rparr>"
  let ?os' = "\<lparr>foreign = {}, live = [\<lparr>get_port = 8001\<rparr>, \<lparr>get_port = 8003\<rparr>], probe = {}\<rparr>"
  have r: "run next_ports [Start ''a'']
     (ViserProxyManager 8000 8002, \<lparr>foreign = {}, live = [], probe = {}\<rparr>) = (?m, ?os)"
    by (simp add: eval_defs)
  have a: "server_from_session_hash ?m ''a'' = Some \<lparr>get_port = 8001\<rparr>"
    by simp
  have i: "(8002::int) \<in> {8000..8002}" by simp
  have t: "try_port next_ports 8002 ?os = (Inr \<lparr>get_port = 8003\<rparr>, ?os')"
    by (simp add: eval_defs)
  then have launches: "\<not> isl (fst (try_port next_ports 8002 ?os))" by simp
  have others: "\<forall>port\<in>{8000..8002}. isl (fst (try_port next_ports port ?os))
           \<longrightarrow> fst (try_port next_ports port ?os) = Inl OSError"
  proof
    fix port :: int
    assume "port \<in> {8000..8002}"
    then have "port = 8000 \<or> port = 8001 \<or> port = 8002" by auto
    then show "isl (fst (try_port next_ports port ?os))
           \<longrightarrow> fst (try_port next_ports port ?os) = Inl OSError"
      by (auto simp: eval_defs)
  qed
  have s: "start_server next_ports ''a'' (?m, ?os) =
     (Inr \<lparr>get_port = 8003\<rparr>,
      \<lparr>min_port = 8000, max_port = 8002,
       server_from_session_hash = [''a'' \<mapsto> \<lparr>get_port = 8003\<rparr>], last_port = 8002\<rparr>,
      ?os')"
    by (simp add: eval_defs)
  from start_server_replaces_entry [OF r a i launches others]
  obtain new m' os' where n: "start_server next_ports ''a'' (?m, ?os) = (Inr new, m', os')"
      "\<lparr>get_port = 8001\<rparr> \<in> set (live os')"
      "\<not> bind_ok os' (get_port \<lparr>get_port = 8001\<rparr>)"
    by auto
  from n(1) have "os' = ?os'" unfolding s by (simp only: prod.inject)
  with n(2,3) have "\<lparr>get_port = 8001::int\<rparr> \<in> set [\<lparr>get_port = 8001\<rparr>, \<lparr>get_port = 8003\<rparr>]"
      "\<not> bind_ok ?os' 8001"
    by simp_all
  with r t s i show ?thesis by simp
qed

section \<open>Proxying\<close>

lemmas http_defs =
  proxy_def target_url_def str_int_def str_nat.simps path_suffix_def forwarded_headers_def
  dict_of_request_headers_def dict_of_response_headers_def header_values_def lower_def
  lower_char_def aread_def answering_def unreachable_def example_decode_def

text \<open>
  C9. For a session id with no entry in the registry, the HTTP handler answers with status
  404 and sends nothing to any backend, and the WebSocket handler accepts the connection and
  closes it with code 1008, without any attempt to connect to a backend.
\<close>

theorem unknown_session_not_found:
  assumes "server_from_session_hash m server_id = None"
  shows "proxy decode send m request server_id proxy_path =
           ([], Inr \<lparr>content = ''Server not found'', status_code = 404, headers = Map.empty\<rparr>) \<and>
         websocket_proxy connect m server_id = [Accept, Close 1008 ''Not Found''] \<and>
         (\<forall>target. Connect target \<notin> set (websocket_proxy connect m server_id))"
  using assms by (simp add: proxy_def websocket_proxy_def)

theorem unknown_session_not_found_witness:
  "server_from_session_hash (ViserProxyManager 8000 8002) ''a'' = None \<and>
   proxy example_decode unreachable (ViserProxyManager 8000 8002)
     \<lparr>request_method = ''GET'', request_query = [], request_headers = [],
      request_body = []\<rparr> ''a'' ''index.html'' =
     ([], Inr \<lparr>content = ''Server not found'', status_code = 404, headers = Map.empty\<rparr>) \<and>
   websocket_proxy (\<lambda>u. Relayed) (ViserProxyManager 8000 8002) ''a'' =
     [Accept, Close 1008 ''Not Found'']"
proof -
  have n: "server_from_session_hash (ViserProxyManager 8000 8002) ''a'' = None"
    by (simp add: ViserProxyManager_def)
  from unknown_session_not_found
         [OF n, of example_decode unreachable
            "\<lparr>request_method = ''GET'', request_query = [], request_headers = [],
              request_body = []\<rparr>" "''index.html''" "\<lambda>u. Relayed"] n
  show ?thesis by blast
qed

text \<open>
  C4, at a request with a repeated header. The claim has every header but \<^verbatim>\<open>Host\<close> and
  \<^verbatim>\<open>Accept-Encoding\<close> forwarded unchanged, and the comment in the handler says the same
  (``Forward the original headers, but remove any problematic ones''). For a request with the
  lines \<^verbatim>\<open>host: example.org\<close>, \<^verbatim>\<open>accept: text/html\<close> and \<^verbatim>\<open>accept: application/json\<close> to a
  registered session, the handler sends the backend one request, with the inbound method and
  body, without \<^verbatim>\<open>host\<close> and with \<^verbatim>\<open>accept-encoding: identity\<close>, but with \<^verbatim>\<open>accept: text/html\<close>
  alone: the second \<^verbatim>\<open>accept\<close> line is not forwarded.
\<close>

theorem proxy_forwards_first_value_only:
  "fst (proxy decode send
     \<lparr>min_port = 8000, max_port = 8002,
      server_from_session_hash = [''a'' \<mapsto> \<lparr>get_port = 8001\<rparr>], last_port = 8000\<rparr>
     \<lparr>request_method = ''GET'', request_query = [],
      request_headers =
        [(''host'', ''example.org''), (''accept'', ''text/html''),
         (''accept'', ''application/json'')],
      request_body = []\<rparr> ''a'' ''index.html'') =
     [\<lparr>proxied_method = ''GET'',
       proxied_url = ''http://127.0.0.1:8001/index.html'',
       proxied_headers = [''accept'' \<mapsto> ''text/html'', ''accept-encoding'' \<mapsto> ''identity''],
       proxied_content = []\<rparr>]"
proof -
  have "forwarded_headers
     \<lparr>request_method = ''GET'', request_query = [],
      request_headers =
        [(''host'', ''example.org''), (''accept'', ''text/html''),
         (''accept'', ''application/json'')],
      request_body = []\<rparr> = [''accept'' \<mapsto> ''text/html'', ''accept-encoding'' \<mapsto> ''identity'']"
    by (auto simp: forwarded_headers_def dict_of_request_headers_def fun_eq_iff)
  then show ?thesis
    by (simp add: proxy_def target_url_def str_int_def str_nat.simps path_suffix_def Let_def
        split: sum.splits)
qed

text \<open>
  C5, as the claim has it: the status code, headers and body returned to the client equal
  exactly what the backend produced. A backend that answers with the two lines
  \<^verbatim>\<open>Set-Cookie: a=1\<close> and \<^verbatim>\<open>Set-Cookie: b=2\<close> has the client receive the single header
  \<^verbatim>\<open>set-cookie: a=1, b=2\<close>; and a backend that answers with a \<^verbatim>\<open>gzip\<close> body has the client
  receive the decoded body, with the header \<^verbatim>\<open>content-encoding: gzip\<close> still in place.
\<close>

theorem proxy_returns_backend_response_counterexample:
  "snd (proxy example_decode
          (answering
             \<lparr>backend_status_code = 200,
              backend_headers = [(''Set-Cookie'', ''a=1''), (''Set-Cookie'', ''b=2'')],
              backend_body = ''ok''\<rparr>)
          \<lparr>min_port = 8000, max_port = 8002,
           server_from_session_hash = [''a'' \<mapsto> \<lparr>get_port = 8001\<rparr>], last_port = 8000\<rparr>
          \<lparr>request_method = ''GET'', request_query = [], request_headers = [],
           request_body = []\<rparr> ''a'' []) =
     Inr \<lparr>content = ''ok'', status_code = 200, headers = [''set-cookie'' \<mapsto> ''a=1, b=2'']\<rparr> \<and>
   snd (proxy example_decode
          (answering
             \<lparr>backend_status_code = 200,
              backend_headers = [(''content-encoding'', ''gzip'')],
              backend_body = ''(hello, compressed)''\<rparr>)
          \<lparr>min_port = 8000, max_port = 8002,
           server_from_session_hash = [''a'' \<mapsto> \<lparr>get_port = 8001\<rparr>], last_port = 8000\<rparr>
          \<lparr>request_method = ''GET'', request_query = [], request_headers = [],
           request_body = []\<rparr> ''a'' []) =
     Inr \<lparr>content = ''hello'', status_code = 200, headers = [''content-encoding'' \<mapsto> ''gzip'']\<rparr>"
proof -
  have 1: "dict_of_response_headers [(''Set-Cookie'', ''a=1''), (''Set-Cookie'', ''b=2'')] =
        [''set-cookie'' \<mapsto> ''a=1, b=2'']"
    by (auto simp: http_defs fun_eq_iff)
  have 2: "dict_of_response_headers [(''content-encoding'', ''gzip'')] =
        [''content-encoding'' \<mapsto> ''gzip'']"
    by (auto simp: http_defs fun_eq_iff)
  show ?thesis
    by (simp add: proxy_def aread_def answering_def example_decode_def Let_def 1 2)
qed

text \<open>
  C5, amended. When the backend answers the request that the handler sent, the response
  given to the client has the status code of that answer. Its headers are the names of the
  answer's header lines in lower case, each once, with the values of the lines of that name
  joined by a comma and a space; so a header that the backend sent on one line keeps its
  value, and no other header is returned. Its body is the answer's body when the answer has
  no \<^verbatim>\<open>content-encoding\<close> line, and otherwise what the client library's decoder for that
  coding makes of it.
\<close>

theorem proxy_returns_backend_response:
  assumes "fst (proxy decode send m request server_id proxy_path) = [sent]"
    and "send sent = Inr proxied_resp"
  shows "\<exists>resp.
           snd (proxy decode send m request server_id proxy_path) = Inr resp \<and>
           status_code resp = backend_status_code proxied_resp \<and>
           (\<forall>name. headers resp name =
              (if header_values name (backend_headers proxied_resp) = [] then None
               else Some (join '', '' (header_values name (backend_headers proxied_resp))))) \<and>
           (\<forall>name v. header_values name (backend_headers proxied_resp) = [v]
              \<longrightarrow> headers resp name = Some v) \<and>
           content resp =
             (case headers resp ''content-encoding'' of
                None \<Rightarrow> backend_body proxied_resp
              | Some coding \<Rightarrow> decode coding (backend_body proxied_resp)) \<and>
           (header_values ''content-encoding'' (backend_headers proxied_resp) = []
              \<longrightarrow> content resp = backend_body proxied_resp)"
proof -
  from assms obtain server where s: "server_from_session_hash m server_id = Some server"
    by (cases "server_from_session_hash m server_id") (auto simp: proxy_def)
  with assms have sent: "sent =
      \<lparr>proxied_method = request_method request,
       proxied_url = target_url server request proxy_path,
       proxied_headers = forwarded_headers request,
       proxied_content = request_body request\<rparr>"
    by (auto simp: proxy_def Let_def split: sum.splits)
  define resp where
    "resp = \<lparr>content = aread decode proxied_resp,
            status_code = backend_status_code proxied_resp,
            headers = dict_of_response_headers (backend_headers proxied_resp)\<rparr>"
  have r: "snd (proxy decode send m request server_id proxy_path) = Inr resp"
    using s assms(2) sent by (simp add: proxy_def Let_def resp_def)
  have h: "headers resp name =
              (if header_values name (backend_headers proxied_resp) = [] then None
               else Some (join '', '' (header_values name (backend_headers proxied_resp))))"
    for name
    by (simp add: resp_def dict_of_response_headers_def)
  have single: "headers resp name = Some v"
    if "header_values name (backend_headers proxied_resp) = [v]" for name v
    using that h [of name] by simp
  have c: "content resp =
             (case headers resp ''content-encoding'' of
                None \<Rightarrow> backend_body proxied_resp
              | Some coding \<Rightarrow> decode coding (backend_body proxied_resp))"
    by (simp add: resp_def aread_def)
  have plain: "content resp = backend_body proxied_resp"
    if "header_values ''content-encoding'' (backend_headers proxied_resp) = []"
    using that c h [of "''content-encoding''"] by simp
  have "status_code resp = backend_status_code proxied_resp" by (simp add: resp_def)
  with r h single c plain show ?thesis by blast
qed

theorem proxy_returns_backend_response_witness:
  "fst (proxy example_decode
          (answering
             \<lparr>backend_status_code = 200,
              backend_headers = [(''Content-Type'', ''text/html'')],
              backend_body = ''<html>''\<rparr>)
          \<lparr>min_port = 8000, max_port = 8002,
           server_from_session_hash = [''a'' \<mapsto> \<lparr>get_port = 8001\<rparr>], last_port = 8000\<rparr>
          \<lparr>request_method = ''GET'', request_query = [], request_headers = [],
           request_body = []\<rparr> ''a'' []) =
     [\<lparr>proxied_method = ''GET'', proxied_url = ''http://127.0.0.1:8001/'',
       proxied_headers = [''accept-encoding'' \<mapsto> ''identity''], proxied_content = []\<rparr>] \<and>
   header_values ''content-type'' [(''Content-Type'', ''text/html'')] = [''text/html''] \<and>
   header_values ''content-encoding'' [(''Content-Type'', ''text/html'')] = [] \<and>
   snd (proxy example_decode
          (answering
             \<lparr>backend_status_code = 200,
              backend_headers = [(''Content-Type'', ''text/html'')],
              backend_body = ''<html>''\<rparr>)
          \<lparr>min_port = 8000, max_port = 8002,
           server_from_session_hash = [''a'' \<mapsto> \<lparr>get_port = 8001\<rparr>], last_port = 8000\<rparr>
          \<lparr>request_method = ''GET'', request_query = [], request_headers = [],
           request_body = []\<rparr> ''a'' []) =
     Inr \<lparr>content = ''<html>'', status_code = 200,
          headers = [''content-type'' \<mapsto> ''text/html'']\<rparr>"
proof -
  let ?backend = "answering
             \<lparr>backend_status_code = 200,
              backend_headers = [(''Content-Type'', ''text/html'')],
              backend_body = ''<html>''\<rparr>"
  let ?m = "\<lparr>min_port = 8000, max_port = 8002,
           server_from_session_hash = [''a'' \<mapsto> \<lparr>get_port = 8001\<rparr>], last_port = 8000\<rparr>"
  let ?request = "\<lparr>request_method = ''GET'', request_query = [], request_headers = [],
           request_body = []\<rparr>"
  let ?sent = "\<lparr>proxied_method = ''GET'', proxied_url = ''http://127.0.0.1:8001/'',
       proxied_headers = [''accept-encoding'' \<mapsto> ''identity''], proxied_content = []\<rparr>"
  have f: "fst (proxy example_decode ?backend ?m ?request ''a'' []) = [?sent]"
    by (simp add: proxy_def target_url_def str_int_def str_nat.simps path_suffix_def
        forwarded_headers_def dict_of_request_headers_def answering_def)
  have s: "?backend ?sent =
       Inr \<lparr>backend_status_code = 200,
              backend_headers = [(''Content-Type'', ''text/html'')],
              backend_body = ''<html>''\<rparr>"
    by (simp add: answering_def)
  have v1: "header_values ''content-type'' [(''Content-Type'', ''text/html'')] = [''text/html'']"
    by (simp add: header_values_def lower_def lower_char_def)
  have v2: "header_values ''content-encoding'' [(''Content-Type'', ''text/html'')] = []"
    by (simp add: header_values_def lower_def lower_char_def)
  from proxy_returns_backend_response [OF f s]
  obtain resp where r: "snd (proxy example_decode ?backend ?m ?request ''a'' []) = Inr resp"
    and st: "status_code resp = 200"
    and hd: "\<And>name. headers resp name =
              (if header_values name [(''Content-Type'', ''text/html'')] = [] then None
               else Some (join '', '' (header_values name [(''Content-Type'', ''text/html'')])))"
    and ct: "header_values ''content-encoding'' [(''Content-Type'', ''text/html'')] = []
              \<longrightarrow> content resp = ''<html>''"
    by auto
  have "headers resp = [''content-type'' \<mapsto> ''text/html'']"
  proof
    fix name
    show "headers resp name = [''content-type'' \<mapsto> ''text/html''] name"
      unfolding hd [of name] by (simp add: header_values_def lower_def lower_char_def)
  qed
  moreover have "content resp = ''<html>''" using ct v2 by simp
  ultimately have "resp = \<lparr>content = ''<html>'', status_code = 200,
          headers = [''content-type'' \<mapsto> ''text/html'']\<rparr>"
    using st by (cases resp) simp
  with r f v1 v2 show ?thesis by simp
qed

end
